theory Spec2Isabelle
  imports Main "HOL-Library.Sublist"
begin

section \<open>Python values\<close>

text \<open>
  A Python \<^verbatim>\<open>str\<close> is a sequence of code points, lone surrogates included.
  \<open>str\<close> embeds an ASCII literal.
\<close>

type_synonym pystr = "nat list"

definition str :: "string \<Rightarrow> pystr" where
  "str s = map of_char s"

text \<open>
  Text can be written to a UTF-8 file when it holds no surrogate (U+D800 to U+DFFF);
  otherwise the write raises \<^verbatim>\<open>UnicodeEncodeError\<close>.
\<close>

definition utf8_encodable :: "pystr \<Rightarrow> bool" where
  "utf8_encodable s = list_all (\<lambda>c. c < 55296 \<or> 57343 < c) s"

text \<open>The values \<^verbatim>\<open>json.load\<close> returns.\<close>

datatype json =
    JNull
  | JBool bool
  | JInt int
  | JFloat pystr
  | JString pystr
  | JArray "json list"
  | JObject "(pystr \<times> json) list"

text \<open>
  The exceptions of the program. All but \<^verbatim>\<open>KeyboardInterrupt\<close> are subclasses of
  \<^verbatim>\<open>Exception\<close>; \<open>Failure\<close> is any other exception of the chat model or of a tool.
\<close>

datatype error =
    OSError
  | UnicodeDecodeError
  | UnicodeEncodeError
  | JSONDecodeError
  | AttributeError
  | TypeError
  | IndexError
  | KeyError
  | Failure pystr
  | KeyboardInterrupt

definition is_Exception :: "error \<Rightarrow> bool" where
  "is_Exception e = (e \<noteq> KeyboardInterrupt)"

text \<open>
  \<^verbatim>\<open>xs[i:]\<close> for an integer \<open>i\<close>: a negative start counts from the end and is
  clamped at the front of the list, a non-negative one is clamped at its end.
\<close>

definition py_slice_from :: "int \<Rightarrow> 'a list \<Rightarrow> 'a list" where
  "py_slice_from i xs =
     (let n = int (length xs);
          start = (if i < 0 then max (n + i) 0 else min i n)
      in drop (nat start) xs)"

text \<open>
  \<^verbatim>\<open>needle in hay\<close> on strings: \<open>needle\<close> occurs at some position of \<open>hay\<close>.
\<close>

fun str_in :: "pystr \<Rightarrow> pystr \<Rightarrow> bool" where
  "str_in needle [] = (needle = [])"
| "str_in needle (c # cs) = (take (length needle) (c # cs) = needle \<or> str_in needle cs)"

text \<open>
  \<^verbatim>\<open>data.get(key, default)\<close>: only a \<^verbatim>\<open>dict\<close> has the method. \<^verbatim>\<open>len(v)\<close>: a list,
  a string and a \<^verbatim>\<open>dict\<close> have a length, the other values raise \<^verbatim>\<open>TypeError\<close>.
\<close>

definition py_get :: "json \<Rightarrow> pystr \<Rightarrow> json \<Rightarrow> error + json" where
  "py_get data key fallback =
     (case data of
        JObject kvs \<Rightarrow> Inr (case map_of kvs key of None \<Rightarrow> fallback | Some v \<Rightarrow> v)
      | _ \<Rightarrow> Inl AttributeError)"

definition py_len :: "json \<Rightarrow> error + nat" where
  "py_len v =
     (case v of
        JArray xs \<Rightarrow> Inr (length xs)
      | JString s \<Rightarrow> Inr (length s)
      | JObject kvs \<Rightarrow> Inr (length (remdups (map fst kvs)))
      | _ \<Rightarrow> Inl TypeError)"


section \<open>Tools\<close>

text \<open>
  The three functions registered as tools (\<^verbatim>\<open>add\<close>, \<^verbatim>\<open>subtract\<close>,
  \<^verbatim>\<open>multiply\<close>). Python integers are unbounded, hence \<^typ>\<open>int\<close>.
\<close>

definition add :: "int \<Rightarrow> int \<Rightarrow> int" where
  "add a b = a + b"

definition subtract :: "int \<Rightarrow> int \<Rightarrow> int" where
  "subtract a b = a - b"

definition multiply :: "int \<Rightarrow> int \<Rightarrow> int" where
  "multiply a b = a * b"

text \<open>
  \<^verbatim>\<open>TOOLS = [add, subtract, multiply]\<close>: each tool is registered under the name
  of its function.
\<close>

definition TOOLS :: "(pystr \<times> (int \<Rightarrow> int \<Rightarrow> int)) list" where
  "TOOLS = [(str ''add'', add), (str ''subtract'', subtract), (str ''multiply'', multiply)]"


section \<open>Messages\<close>

record tool_call =
  tc_name :: pystr
  tc_args :: "(pystr \<times> json) list"
  tc_id :: pystr

text \<open>
  The message classes the program builds or receives, each with its \<^verbatim>\<open>content\<close> and,
  last, its \<^verbatim>\<open>id\<close>, which is \<^verbatim>\<open>None\<close> for a message the program builds. Only
  \<^verbatim>\<open>AIMessage\<close> has the attribute \<^verbatim>\<open>tool_calls\<close>; a \<^verbatim>\<open>ToolMessage\<close> names the
  call it answers.
\<close>

datatype message =
    HumanMessage pystr "pystr option"
  | SystemMessage pystr "pystr option"
  | AIMessage pystr "tool_call list" "pystr option"
  | ToolMessage pystr pystr "pystr option"

fun content :: "message \<Rightarrow> pystr" where
  "content (HumanMessage c i) = c"
| "content (SystemMessage c i) = c"
| "content (AIMessage c tcs i) = c"
| "content (ToolMessage c call_id i) = c"

fun msg_id :: "message \<Rightarrow> pystr option" where
  "msg_id (HumanMessage c i) = i"
| "msg_id (SystemMessage c i) = i"
| "msg_id (AIMessage c tcs i) = i"
| "msg_id (ToolMessage c call_id i) = i"

fun with_id :: "pystr option \<Rightarrow> message \<Rightarrow> message" where
  "with_id j (HumanMessage c i) = HumanMessage c j"
| "with_id j (SystemMessage c i) = SystemMessage c j"
| "with_id j (AIMessage c tcs i) = AIMessage c tcs j"
| "with_id j (ToolMessage c call_id i) = ToolMessage c call_id j"

text \<open>\<^verbatim>\<open>hasattr(m, "tool_calls")\<close> and \<^verbatim>\<open>m.tool_calls\<close>.\<close>

fun has_tool_calls :: "message \<Rightarrow> bool" where
  "has_tool_calls (AIMessage c tcs i) = True"
| "has_tool_calls m = False"

fun tool_calls :: "message \<Rightarrow> tool_call list" where
  "tool_calls (AIMessage c tcs i) = tcs"
| "tool_calls m = []"


section \<open>Conversation memory\<close>

text \<open>
  A record of the history is a \<^verbatim>\<open>dict\<close> with the three keys, as
  \<^verbatim>\<open>add_conversation\<close> builds it; \<open>conv_json\<close> is that \<^verbatim>\<open>dict\<close> as a value.
\<close>

record conv =
  timestamp :: pystr
  user :: pystr
  agent :: pystr

definition conv_json :: "conv \<Rightarrow> json" where
  "conv_json c =
     JObject [(str ''timestamp'', JString (timestamp c)),
              (str ''user'', JString (user c)),
              (str ''agent'', JString (agent c))]"

definition records_json :: "conv list \<Rightarrow> json" where
  "records_json cs = JArray (map conv_json cs)"

text \<open>
  The memory file as \<^verbatim>\<open>open\<close> and \<^verbatim>\<open>json.load\<close> see it: it cannot be opened, its
  bytes are not UTF-8, its text is not JSON, or it parses to a value. A path that does
  not exist is absent from the file system. The text of the file is not modelled: a
  file that \<^verbatim>\<open>json.dump\<close> has written completely holds the value that was dumped,
  which is what the \<^verbatim>\<open>json\<close> module does for strings, lists and \<^verbatim>\<open>dict\<close>s with
  string keys.
\<close>

datatype file_content = Unreadable | Undecodable | Unparsable | Parsed json

type_synonym filesystem = "pystr \<rightharpoonup> file_content"

text \<open>What the program prints.\<close>

datatype event =
    Loaded nat
  | LoadFailed error
  | SaveFailed error
  | MemoryCleared
  | Printed message

text \<open>
  The object of class \<^verbatim>\<open>ConversationMemory\<close>. Its history is a list of records for
  the methods that work on records (\<open>'h\<close> is \<^typ>\<open>conv list\<close>); \<^verbatim>\<open>load_memory\<close>
  assigns to it whatever the file holds under \<^verbatim>\<open>conversations\<close> (\<open>'h\<close> is
  \<^typ>\<open>json\<close>).
\<close>

record 'h ConversationMemory =
  memory_file :: pystr
  conversation_history :: 'h

text \<open>
  The \<^verbatim>\<open>try\<close> block of \<^verbatim>\<open>load_memory\<close>: \<^verbatim>\<open>open\<close>, \<^verbatim>\<open>json.load\<close>,
  \<^verbatim>\<open>data.get("conversations", [])\<close>, the assignment to the history, and the
  \<^verbatim>\<open>print\<close> of \<^verbatim>\<open>len\<close> of the history. The assignment comes before \<^verbatim>\<open>len\<close>, so a
  value without a length is in the history when \<^verbatim>\<open>len\<close> raises. The result is the
  object and either the exception or the number printed.
\<close>

definition load_body :: "file_content \<Rightarrow> json ConversationMemory \<Rightarrow> json ConversationMemory \<times> (error + nat)" where
  "load_body file self =
     (case file of
        Unreadable \<Rightarrow> (self, Inl OSError)
      | Undecodable \<Rightarrow> (self, Inl UnicodeDecodeError)
      | Unparsable \<Rightarrow> (self, Inl JSONDecodeError)
      | Parsed data \<Rightarrow>
          (case py_get data (str ''conversations'') (JArray []) of
             Inl e \<Rightarrow> (self, Inl e)
           | Inr v \<Rightarrow> (self\<lparr>conversation_history := v\<rparr>, py_len v)))"

text \<open>
  \<^verbatim>\<open>load_memory\<close>: nothing happens when the file does not exist; otherwise the
  \<^verbatim>\<open>try\<close> block runs and \<^verbatim>\<open>except Exception\<close> reports what it catches.
\<close>

definition load_memory :: "filesystem \<Rightarrow> json ConversationMemory \<Rightarrow> error + (json ConversationMemory \<times> event list)" where
  "load_memory fs self =
     (case fs (memory_file self) of
        None \<Rightarrow> Inr (self, [])
      | Some file \<Rightarrow>
          (case load_body file self of
             (self', Inl e) \<Rightarrow>
               if is_Exception e then Inr (self', [LoadFailed e]) else Inl e
           | (self', Inr n) \<Rightarrow> Inr (self', [Loaded n])))"

text \<open>\<^verbatim>\<open>__init__\<close>: an empty history, then \<^verbatim>\<open>load_memory\<close>.\<close>

definition ConversationMemory_init :: "pystr \<Rightarrow> filesystem \<Rightarrow> error + (json ConversationMemory \<times> event list)" where
  "ConversationMemory_init file fs =
     load_memory fs \<lparr>memory_file = file, conversation_history = JArray []\<rparr>"

text \<open>
  \<^verbatim>\<open>save_memory\<close> overwrites the whole file with the \<^verbatim>\<open>dict\<close> of the history and
  the time. The write is the environment's: it goes through, or \<^verbatim>\<open>open\<close> fails and
  the file is untouched, or the write fails after \<^verbatim>\<open>open\<close> has truncated the file,
  which leaves text that is not JSON. A write that goes through still fails in this last
  way when a text of the history cannot be encoded. Every failure is caught and
  reported.
\<close>

datatype write_outcome = Written | OpenFails | WriteFails

definition saved_document :: "pystr \<Rightarrow> conv list ConversationMemory \<Rightarrow> json" where
  "saved_document now self =
     JObject [(str ''conversations'', records_json (conversation_history self)),
              (str ''last_updated'', JString now)]"

definition conv_encodable :: "conv \<Rightarrow> bool" where
  "conv_encodable c =
     (utf8_encodable (timestamp c) \<and> utf8_encodable (user c) \<and> utf8_encodable (agent c))"

definition save_memory :: "write_outcome \<Rightarrow> pystr \<Rightarrow> conv list ConversationMemory \<Rightarrow> filesystem \<Rightarrow> filesystem \<times> event list" where
  "save_memory w now self fs =
     (case w of
        OpenFails \<Rightarrow> (fs, [SaveFailed OSError])
      | WriteFails \<Rightarrow> (fs(memory_file self \<mapsto> Unparsable), [SaveFailed OSError])
      | Written \<Rightarrow>
          if list_all conv_encodable (conversation_history self) \<and> utf8_encodable now
          then (fs(memory_file self \<mapsto> Parsed (saved_document now self)), [])
          else (fs(memory_file self \<mapsto> Unparsable), [SaveFailed UnicodeEncodeError]))"

text \<open>\<^verbatim>\<open>add_conversation\<close>: append, then keep \<^verbatim>\<open>[-50:]\<close>.\<close>

definition add_conversation :: "pystr \<Rightarrow> pystr \<Rightarrow> pystr \<Rightarrow> conv list ConversationMemory \<Rightarrow> conv list ConversationMemory" where
  "add_conversation now user_input agent_response self =
     self\<lparr>conversation_history :=
       py_slice_from (- 50)
         (conversation_history self
            @ [\<lparr>timestamp = now, user = user_input, agent = agent_response\<rparr>])\<rparr>"

text \<open>\<^verbatim>\<open>get_context_messages\<close>: two messages for each record of \<^verbatim>\<open>[-limit:]\<close>.\<close>

definition context_pair :: "conv \<Rightarrow> message list" where
  "context_pair c =
     [HumanMessage (user c) None,
      SystemMessage (str ''Previous response: '' @ agent c) None]"

definition get_context_messages :: "int \<Rightarrow> conv list ConversationMemory \<Rightarrow> message list" where
  "get_context_messages limit self =
     concat (map context_pair (py_slice_from (- limit) (conversation_history self)))"

text \<open>
  \<^verbatim>\<open>search_memory\<close>: the list comprehension, in the order of the history. The
  built-in \<^verbatim>\<open>str.lower\<close> is a parameter.
\<close>

definition search_hit :: "(pystr \<Rightarrow> pystr) \<Rightarrow> pystr \<Rightarrow> conv \<Rightarrow> bool" where
  "search_hit lower keyword c =
     (str_in (lower keyword) (lower (user c)) \<or> str_in (lower keyword) (lower (agent c)))"

definition search_memory :: "(pystr \<Rightarrow> pystr) \<Rightarrow> pystr \<Rightarrow> conv list ConversationMemory \<Rightarrow> conv list" where
  "search_memory lower keyword self =
     filter (search_hit lower keyword) (conversation_history self)"

text \<open>
  The command \<^verbatim>\<open>clear memory\<close> of \<^verbatim>\<open>main\<close>: the history is reset and saved.
\<close>

definition clear_memory :: "write_outcome \<Rightarrow> pystr \<Rightarrow> conv list ConversationMemory \<Rightarrow> filesystem \<Rightarrow> conv list ConversationMemory \<times> filesystem \<times> event list" where
  "clear_memory w now self fs =
     (let self' = self\<lparr>conversation_history := []\<rparr>;
          (fs', out) = save_memory w now self' fs
      in (self', fs', out @ [MemoryCleared]))"

text \<open>Successive calls of \<^verbatim>\<open>add_conversation\<close>, one for each (time, user, agent).\<close>

fun add_all :: "(pystr \<times> pystr \<times> pystr) list \<Rightarrow> conv list ConversationMemory \<Rightarrow> conv list ConversationMemory" where
  "add_all [] self = self"
| "add_all ((now, u, a) # rest) self = add_all rest (add_conversation now u a self)"

definition as_conv :: "pystr \<times> pystr \<times> pystr \<Rightarrow> conv" where
  "as_conv t = (case t of (now, u, a) \<Rightarrow> \<lparr>timestamp = now, user = u, agent = a\<rparr>)"


section \<open>The agent graph\<close>

text \<open>\<^verbatim>\<open>AgentState\<close>: the messages of one run of the graph.\<close>

record AgentState =
  messages :: "message list"

text \<open>
  The chat model and the tool node are the environment's: \<^verbatim>\<open>model_with_tools.invoke\<close>
  answers a message list with a message or raises, and the node \<^verbatim>\<open>tools\<close> answers a
  state with the messages to add or raises. Both are parameters of the run.
\<close>

type_synonym chat_model = "message list \<Rightarrow> error + message"

type_synonym tool_node = "AgentState \<Rightarrow> error + message list"

definition system_message :: message where
  "system_message =
     SystemMessage
       (str (''You are my personal AI agent with memory.\<newline>''
        @ ''1. Answer accurately\<newline>''
        @ ''2. Use previous context\<newline>''
        @ ''3. Use tools when required\<newline>''
        @ ''4. Stay conversational''))
       None"

text \<open>
  \<^verbatim>\<open>model_call\<close>: the model is called on \<^verbatim>\<open>[system_message] + state["messages"]\<close>
  and its response is returned as the update \<^verbatim>\<open>{"messages": [response]}\<close>.
\<close>

definition model_input :: "AgentState \<Rightarrow> message list" where
  "model_input state = [system_message] @ messages state"

definition model_call :: "chat_model \<Rightarrow> AgentState \<Rightarrow> error + message list" where
  "model_call model_with_tools state =
     (case model_with_tools (model_input state) of
        Inl e \<Rightarrow> Inl e
      | Inr response \<Rightarrow> Inr [response])"

text \<open>\<^verbatim>\<open>should_continue\<close>; \<^verbatim>\<open>state["messages"][-1]\<close> raises on an empty list.\<close>

definition should_continue :: "AgentState \<Rightarrow> error + string" where
  "should_continue state =
     (case messages state of
        [] \<Rightarrow> Inl IndexError
      | m # ms \<Rightarrow>
          (let last_message = last (m # ms)
           in if has_tool_calls last_message \<and> tool_calls last_message \<noteq> []
              then Inr ''continue'' else Inr ''end''))"

text \<open>
  The graph: the nodes \<^verbatim>\<open>agent_calling\<close> (the entry point) and \<^verbatim>\<open>tools\<close>, the
  conditional edges out of \<^verbatim>\<open>agent_calling\<close> chosen by \<^verbatim>\<open>should_continue\<close>, and
  the edge from \<^verbatim>\<open>tools\<close> back to \<^verbatim>\<open>agent_calling\<close>.
\<close>

datatype node = agent_calling | tools | END

definition entry_point :: node where
  "entry_point = agent_calling"

definition conditional_edges :: "string \<rightharpoonup> node" where
  "conditional_edges = [''continue'' \<mapsto> tools, ''end'' \<mapsto> END]"

definition after_agent_calling :: "AgentState \<Rightarrow> error + node" where
  "after_agent_calling state =
     (case should_continue state of
        Inl e \<Rightarrow> Inl e
      | Inr branch \<Rightarrow>
          (case conditional_edges branch of
             None \<Rightarrow> Inl KeyError
           | Some n \<Rightarrow> Inr n))"

text \<open>
  The reducer \<^verbatim>\<open>add_messages\<close> of the field \<^verbatim>\<open>messages\<close> merges the update of a node
  into the state. It first gives every message without an id a fresh one, those of the
  state before those of the update; \<open>uuid4\<close> is the sequence of the values that
  \<^verbatim>\<open>uuid.uuid4()\<close> returns and the number counts the calls made so far. Then each
  message of the update, in order, replaces the message of the same id where it stands,
  or is appended when no message has its id. (The program builds no
  \<^verbatim>\<open>RemoveMessage\<close>.)
\<close>

type_synonym uuid_source = "nat \<Rightarrow> pystr"

fun assign_ids :: "uuid_source \<Rightarrow> nat \<Rightarrow> message list \<Rightarrow> message list \<times> nat" where
  "assign_ids uuid4 k [] = ([], k)"
| "assign_ids uuid4 k (m # ms) =
     (case msg_id m of
        None \<Rightarrow>
          (let (ms', k') = assign_ids uuid4 (Suc k) ms
           in (with_id (Some (uuid4 k)) m # ms', k'))
      | Some i \<Rightarrow>
          (let (ms', k') = assign_ids uuid4 k ms
           in (m # ms', k')))"

fun replace_last :: "message \<Rightarrow> message list \<Rightarrow> message list option" where
  "replace_last m [] = None"
| "replace_last m (x # xs) =
     (case replace_last m xs of
        Some xs' \<Rightarrow> Some (x # xs')
      | None \<Rightarrow> if msg_id x = msg_id m then Some (m # xs) else None)"

definition merge_message :: "message list \<Rightarrow> message \<Rightarrow> message list" where
  "merge_message merged m =
     (case replace_last m merged of
        Some merged' \<Rightarrow> merged'
      | None \<Rightarrow> merged @ [m])"

definition add_messages :: "uuid_source \<Rightarrow> nat \<Rightarrow> message list \<Rightarrow> message list \<Rightarrow> message list \<times> nat" where
  "add_messages uuid4 k left right =
     (let (left', k1) = assign_ids uuid4 k left;
          (right', k2) = assign_ids uuid4 k1 right
      in (foldl merge_message left' right', k2))"

definition apply_update :: "uuid_source \<Rightarrow> nat \<Rightarrow> AgentState \<Rightarrow> message list \<Rightarrow> AgentState \<times> nat" where
  "apply_update uuid4 k state update =
     (let (merged, k') = add_messages uuid4 k (messages state) update
      in (state\<lparr>messages := merged\<rparr>, k'))"

text \<open>
  \<^verbatim>\<open>app.stream(inputs, stream_mode="values")\<close> yields the state after every step,
  first the state that holds the input, and ends when the graph reaches \<^verbatim>\<open>END\<close> or a
  node raises. Nothing in the program bounds the number of steps, so the run takes fuel,
  one unit for each node it executes: \<open>None\<close> says that the fuel did not suffice.
\<close>

datatype stream_end = StopIteration | Raises error

definition emit :: "AgentState \<Rightarrow> (AgentState list \<times> stream_end) option \<Rightarrow> (AgentState list \<times> stream_end) option" where
  "emit state rest =
     (case rest of
        None \<Rightarrow> None
      | Some (states, ending) \<Rightarrow> Some (state # states, ending))"

fun run_graph :: "nat \<Rightarrow> uuid_source \<Rightarrow> nat \<Rightarrow> chat_model \<Rightarrow> tool_node \<Rightarrow> node \<Rightarrow> AgentState \<Rightarrow> (AgentState list \<times> stream_end) option" where
  "run_graph fuel uuid4 k model_with_tools tool_node END state = Some ([], StopIteration)"
| "run_graph 0 uuid4 k model_with_tools tool_node agent_calling state = None"
| "run_graph 0 uuid4 k model_with_tools tool_node tools state = None"
| "run_graph (Suc fuel) uuid4 k model_with_tools tool_node agent_calling state =
     (case model_call model_with_tools state of
        Inl e \<Rightarrow> Some ([], Raises e)
      | Inr update \<Rightarrow>
          (let (state', k') = apply_update uuid4 k state update
           in case after_agent_calling state' of
                Inl e \<Rightarrow> Some ([], Raises e)
              | Inr n \<Rightarrow>
                  emit state' (run_graph fuel uuid4 k' model_with_tools tool_node n state')))"
| "run_graph (Suc fuel) uuid4 k model_with_tools tool_node tools state =
     (case tool_node state of
        Inl e \<Rightarrow> Some ([], Raises e)
      | Inr update \<Rightarrow>
          (let (state', k') = apply_update uuid4 k state update
           in emit state'
                (run_graph fuel uuid4 k' model_with_tools tool_node agent_calling state')))"

definition app_stream :: "nat \<Rightarrow> uuid_source \<Rightarrow> chat_model \<Rightarrow> tool_node \<Rightarrow> AgentState \<Rightarrow> (AgentState list \<times> stream_end) option" where
  "app_stream fuel uuid4 model_with_tools tool_node inputs =
     (let (state, k) = apply_update uuid4 0 \<lparr>messages = []\<rparr> (messages inputs)
      in emit state (run_graph fuel uuid4 k model_with_tools tool_node entry_point state))"


section \<open>Streaming and memory capture\<close>

text \<open>
  The \<^verbatim>\<open>for\<close> loop of \<^verbatim>\<open>print_stream_with_memory\<close> over the states the stream
  yields: the last message of each state is printed and its content becomes
  \<^verbatim>\<open>agent_response\<close> (every message class has \<^verbatim>\<open>content\<close>, so the \<^verbatim>\<open>hasattr\<close>
  test holds). A state without messages raises.
\<close>

fun consume :: "AgentState list \<Rightarrow> pystr \<Rightarrow> event list \<times> (error + pystr)" where
  "consume [] agent_response = ([], Inr agent_response)"
| "consume (s # rest) agent_response =
     (case messages s of
        [] \<Rightarrow> ([], Inl IndexError)
      | m # ms \<Rightarrow>
          (let message = last (m # ms);
               (out, result) = consume rest (content message)
           in (Printed message # out, result)))"

text \<open>
  \<^verbatim>\<open>print_stream_with_memory\<close>: an exception of the loop or of the stream leaves
  the function before the memory is touched; otherwise a non-empty
  \<^verbatim>\<open>agent_response\<close> is added and saved. The two times are the two readings of the
  clock, in \<^verbatim>\<open>add_conversation\<close> and in \<^verbatim>\<open>save_memory\<close>. The result is the
  exception that escaped, if any, the memory, the file system and what was printed.
\<close>

definition print_stream_with_memory ::
  "AgentState list \<times> stream_end \<Rightarrow> conv list ConversationMemory \<Rightarrow> pystr \<Rightarrow> pystr \<Rightarrow> pystr
     \<Rightarrow> write_outcome \<Rightarrow> filesystem
     \<Rightarrow> error option \<times> conv list ConversationMemory \<times> filesystem \<times> event list" where
  "print_stream_with_memory stream memory user_input now_add now_save w fs =
     (case stream of (states, ending) \<Rightarrow>
        (case consume states [] of
           (out, Inl e) \<Rightarrow> (Some e, memory, fs, out)
         | (out, Inr agent_response) \<Rightarrow>
             (case ending of
                Raises e \<Rightarrow> (Some e, memory, fs, out)
              | StopIteration \<Rightarrow>
                  if agent_response \<noteq> [] then
                    (let memory' = add_conversation now_add user_input agent_response memory;
                         (fs', out') = save_memory w now_save memory' fs
                     in (None, memory', fs', out @ out'))
                  else (None, memory, fs, out))))"

text \<open>
  One turn of \<^verbatim>\<open>main\<close> for a prompt that is no command: the context of the memory
  and the prompt are the input of the graph, and the stream goes to
  \<^verbatim>\<open>print_stream_with_memory\<close>.
\<close>

definition turn_inputs :: "conv list ConversationMemory \<Rightarrow> pystr \<Rightarrow> AgentState" where
  "turn_inputs memory user_prompt =
     (let context = get_context_messages 5 memory
      in \<lparr>messages = context @ [HumanMessage user_prompt None]\<rparr>)"

definition turn ::
  "nat \<Rightarrow> uuid_source \<Rightarrow> chat_model \<Rightarrow> tool_node \<Rightarrow> pystr \<Rightarrow> pystr \<Rightarrow> write_outcome
     \<Rightarrow> pystr \<Rightarrow> conv list ConversationMemory \<Rightarrow> filesystem
     \<Rightarrow> (error option \<times> conv list ConversationMemory \<times> filesystem \<times> event list) option" where
  "turn fuel uuid4 model_with_tools tool_node now_add now_save w user_prompt memory fs =
     (case app_stream fuel uuid4 model_with_tools tool_node (turn_inputs memory user_prompt) of
        None \<Rightarrow> None
      | Some stream \<Rightarrow>
          Some (print_stream_with_memory stream memory user_prompt now_add now_save w fs))"


section \<open>Notions used in the statements\<close>

text \<open>
  Lower case on ASCII text, where \<^verbatim>\<open>str.lower\<close> maps \<open>A\<close> to \<open>Z\<close> onto \<open>a\<close> to \<open>z\<close>
  and leaves every other character; \<open>lowers_ascii\<close> says that a function does so on
  ASCII text.
\<close>

definition ascii :: "pystr \<Rightarrow> bool" where
  "ascii s = list_all (\<lambda>c. c < 128) s"

definition ascii_lower :: "pystr \<Rightarrow> pystr" where
  "ascii_lower s = map (\<lambda>c. if 65 \<le> c \<and> c \<le> 90 then c + 32 else c) s"

definition lowers_ascii :: "(pystr \<Rightarrow> pystr) \<Rightarrow> bool" where
  "lowers_ascii lower = (\<forall>s. ascii s \<longrightarrow> lower s = ascii_lower s)"

text \<open>
  Two code points are the same letter when they are equal or one is a capital of \<open>A\<close> to
  \<open>Z\<close> and the other its small letter. A text contains a keyword, letter case ignored,
  when some stretch of the text matches the keyword letter by letter.
\<close>

definition same_letter :: "nat \<Rightarrow> nat \<Rightarrow> bool" where
  "same_letter a b =
     (a = b \<or> (65 \<le> a \<and> a \<le> 90 \<and> b = a + 32) \<or> (65 \<le> b \<and> b \<le> 90 \<and> a = b + 32))"

definition contains_ignoring_case :: "pystr \<Rightarrow> pystr \<Rightarrow> bool" where
  "contains_ignoring_case text keyword =
     (\<exists>pre mid suf. text = pre @ mid @ suf \<and> list_all2 same_letter mid keyword)"

text \<open>
  A state keeps another: the ids of the other are the first ids of the state, in the
  same order. Messages are identified when each has an id. A message without its id.
\<close>

definition keeps :: "AgentState \<Rightarrow> AgentState \<Rightarrow> bool" where
  "keeps a b = prefix (map msg_id (messages a)) (map msg_id (messages b))"

definition identified :: "message list \<Rightarrow> bool" where
  "identified ms = list_all (\<lambda>m. msg_id m \<noteq> None) ms"




section \<open>Concrete inputs\<close>

definition memory_path :: pystr where
  "memory_path = str ''conversation_memory.json''"

definition no_files :: filesystem where
  "no_files = Map.empty"

definition sample_conv :: conv where
  "sample_conv =
     \<lparr>timestamp = str ''2024-05-01T10:00:00'', user = str ''Hi'', agent = str ''Hello''\<rparr>"

definition overfull_fs :: filesystem where
  "overfull_fs =
     [memory_path \<mapsto>
        Parsed (JObject [(str ''conversations'', records_json (replicate 51 sample_conv)),
                         (str ''last_updated'', JString (str ''2024-05-01T10:00:00''))])]"

definition null_fs :: filesystem where
  "null_fs = [memory_path \<mapsto> Parsed (JObject [(str ''conversations'', JNull)])]"

definition numbered_turn :: "nat \<Rightarrow> pystr \<times> pystr \<times> pystr" where
  "numbered_turn i = (str ''2024-05-01T10:00:00'', replicate i 120, str ''ok'')"

definition fifty_one_turns :: "(pystr \<times> pystr \<times> pystr) list" where
  "fifty_one_turns = map numbered_turn [0..<51]"

definition fresh_memory :: "conv list ConversationMemory" where
  "fresh_memory = \<lparr>memory_file = memory_path, conversation_history = []\<rparr>"

definition two_records :: "conv list ConversationMemory" where
  "two_records =
     \<lparr>memory_file = memory_path,
      conversation_history =
        [\<lparr>timestamp = str ''2024-05-01T10:00:00'', user = str ''What is 3 times 4?'',
          agent = str ''12''\<rparr>,
         \<lparr>timestamp = str ''2024-05-01T10:01:00'', user = str ''Thanks'',
          agent = str ''Welcome''\<rparr>]\<rparr>"

text \<open>A record whose user text is a lone surrogate (U+D800).\<close>

definition surrogate_memory :: "conv list ConversationMemory" where
  "surrogate_memory =
     \<lparr>memory_file = memory_path,
      conversation_history =
        [\<lparr>timestamp = str ''2024-05-01T10:00:00'', user = [55296], agent = str ''ok''\<rparr>]\<rparr>"

text \<open>
  The Greek words \<open>odos\<close> and \<open>odosa\<close> in capitals (omicron U+039F, delta U+0394, sigma
  U+03A3, alpha U+0391) and in small letters, where the sigma at the end of a word is
  U+03C2 and the sigma inside a word U+03C3; a record whose user text is the longer
  word.
\<close>

definition ODOS :: pystr where
  "ODOS = [927, 916, 927, 931]"

definition ODOSA :: pystr where
  "ODOSA = [927, 916, 927, 931, 913]"

definition odos_final :: pystr where
  "odos_final = [959, 948, 959, 962]"

definition odosa :: pystr where
  "odosa = [959, 948, 959, 963, 945]"

definition greek_memory :: "conv list ConversationMemory" where
  "greek_memory =
     \<lparr>memory_file = memory_path,
      conversation_history =
        [\<lparr>timestamp = str ''2024-05-01T10:00:00'', user = ODOSA, agent = str ''ok''\<rparr>]\<rparr>"

text \<open>
  \<^verbatim>\<open>str.lower\<close> on text of ASCII characters and Greek letters (U+0391 to U+03A9 and
  U+03B1 to U+03C9): a capital becomes its small letter, and a capital sigma becomes the
  final sigma when a letter stands before it and none after it, where the characters
  that do not count for the case (apostrophe, full stop, colon, circumflex, grave) are
  skipped on both sides. The flag says whether a letter stands before.
\<close>

definition letter :: "nat \<Rightarrow> bool" where
  "letter c =
     ((65 \<le> c \<and> c \<le> 90) \<or> (97 \<le> c \<and> c \<le> 122)
      \<or> (913 \<le> c \<and> c \<le> 929) \<or> (931 \<le> c \<and> c \<le> 937) \<or> (945 \<le> c \<and> c \<le> 969))"

definition case_ignorable :: "nat \<Rightarrow> bool" where
  "case_ignorable c = (c = 39 \<or> c = 46 \<or> c = 58 \<or> c = 94 \<or> c = 96)"

definition small :: "nat \<Rightarrow> nat" where
  "small c =
     (if (65 \<le> c \<and> c \<le> 90) \<or> (913 \<le> c \<and> c \<le> 929) \<or> (931 \<le> c \<and> c \<le> 937)
      then c + 32 else c)"

definition letter_follows :: "pystr \<Rightarrow> bool" where
  "letter_follows cs =
     (case dropWhile case_ignorable cs of [] \<Rightarrow> False | c # rest \<Rightarrow> letter c)"

fun lower_after :: "bool \<Rightarrow> pystr \<Rightarrow> pystr" where
  "lower_after preceded [] = []"
| "lower_after preceded (c # cs) =
     (if c = 931 \<and> preceded \<and> \<not> letter_follows cs then 962 else small c)
       # lower_after (if case_ignorable c then preceded else letter c) cs"

definition lower_latin_greek :: "pystr \<Rightarrow> pystr" where
  "lower_latin_greek s = lower_after False s"

text \<open>
  A model that asks for \<^verbatim>\<open>multiply(3, 4)\<close> and answers once the tool result is
  there, a tool node that returns the product, a model that answers with an empty text
  at once, and a model whose response carries the id of the message it answers. The ids
  that \<^verbatim>\<open>uuid4\<close> hands out are numbered.
\<close>

definition multiply_request :: tool_call where
  "multiply_request =
     \<lparr>tc_name = str ''multiply'', tc_args = [(str ''a'', JInt 3), (str ''b'', JInt 4)],
      tc_id = str ''call_1''\<rparr>"

fun is_tool_message :: "message \<Rightarrow> bool" where
  "is_tool_message (ToolMessage c call_id i) = True"
| "is_tool_message m = False"

definition numbered_uuid :: uuid_source where
  "numbered_uuid k = str ''uuid-'' @ [48 + k]"

definition calculator_model :: chat_model where
  "calculator_model ms =
     (if is_tool_message (last ms)
      then Inr (AIMessage (str ''3 times 4 is 12'') [] (Some (str ''run-2'')))
      else Inr (AIMessage [] [multiply_request] (Some (str ''run-1''))))"

definition calculator_tools :: tool_node where
  "calculator_tools state = Inr [ToolMessage (str ''12'') (str ''call_1'') None]"

definition silent_model :: chat_model where
  "silent_model ms = Inr (AIMessage [] [] (Some (str ''run-1'')))"


definition question :: AgentState where
  "question = \<lparr>messages = [HumanMessage (str ''What is 3 times 4?'') None]\<rparr>"

definition asked :: message where
  "asked = HumanMessage (str ''What is 3 times 4?'') (Some (str ''uuid-0''))"

definition requested :: message where
  "requested = AIMessage [] [multiply_request] (Some (str ''run-1''))"

definition computed :: message where
  "computed = ToolMessage (str ''12'') (str ''call_1'') (Some (str ''uuid-1''))"

definition answered :: message where
  "answered = AIMessage (str ''3 times 4 is 12'') [] (Some (str ''run-2''))"

definition calculator_run :: "AgentState list" where
  "calculator_run =
     [\<lparr>messages = [asked]\<rparr>,
      \<lparr>messages = [asked, requested]\<rparr>,
      \<lparr>messages = [asked, requested, computed]\<rparr>,
      \<lparr>messages = [asked, requested, computed, answered]\<rparr>]"

definition silent_run :: "AgentState list" where
  "silent_run =
     [\<lparr>messages = [asked]\<rparr>,
      \<lparr>messages = [asked, AIMessage [] [] (Some (str ''run-1''))]\<rparr>]"



section \<open>Properties of the tools\<close>

text \<open>
  C8: for all integers \<open>a\<close> and \<open>b\<close>, the registered tools \<^verbatim>\<open>add\<close>, \<^verbatim>\<open>subtract\<close>
  and \<^verbatim>\<open>multiply\<close> return \<open>a + b\<close>, \<open>a - b\<close> and \<open>a * b\<close>.
\<close>

theorem tools_compute:
  "map_of TOOLS (str ''add'') = Some add \<and> add a b = a + b
   \<and> map_of TOOLS (str ''subtract'') = Some subtract \<and> subtract a b = a - b
   \<and> map_of TOOLS (str ''multiply'') = Some multiply \<and> multiply a b = a * b"
  by (simp add: TOOLS_def add_def subtract_def multiply_def str_def)


section \<open>Slices and substrings\<close>

lemma py_slice_from_neg:
  "0 < k \<Longrightarrow> py_slice_from (- k) xs = drop (length xs - nat k) xs"
  by (auto simp: py_slice_from_def Let_def max_def nat_diff_distrib'
      intro: arg_cong[where f="\<lambda>n. drop n xs"])

lemma py_slice_from_zero: "py_slice_from 0 xs = xs"
  by (simp add: py_slice_from_def)

lemma last50: "py_slice_from (- 50) xs = drop (length xs - 50) xs"
  using py_slice_from_neg[of 50 xs] by simp

lemma str_in_sublist: "str_in n h \<longleftrightarrow> sublist n h"
proof (induction h)
  case Nil
  show ?case by simp
next
  case (Cons c cs)
  have "take (length n) (c # cs) = n \<longleftrightarrow> prefix n (c # cs)"
    by (metis append_eq_conv_conj prefix_def take_is_prefix)
  with Cons show ?case by (simp add: sublist_Cons_right)
qed

lemma map_eq_appendD:
  assumes "map f t = a @ b"
  shows "\<exists>x y. t = x @ y \<and> map f x = a \<and> map f y = b"
proof (intro exI conjI)
  show "t = take (length a) t @ drop (length a) t" by simp
  have "map f (take (length a) t) = take (length a) (map f t)" by (simp add: take_map)
  then show "map f (take (length a) t) = a" using assms by simp
  have "map f (drop (length a) t) = drop (length a) (map f t)" by (simp add: drop_map)
  then show "map f (drop (length a) t) = b" using assms by simp
qed

lemma sublist_map_iff:
  "sublist (map f k) (map f t) \<longleftrightarrow> (\<exists>pre mid suf. t = pre @ mid @ suf \<and> map f mid = map f k)"
proof
  assume "sublist (map f k) (map f t)"
  then obtain ps ss where "map f t = ps @ (map f k @ ss)"
    by (auto simp: sublist_def)
  from map_eq_appendD[OF this] obtain pre rest where t: "t = pre @ rest"
    and rest: "map f rest = map f k @ ss"
    by blast
  from map_eq_appendD[OF rest] obtain mid suf
    where "rest = mid @ suf" "map f mid = map f k"
    by blast
  with t show "\<exists>pre mid suf. t = pre @ mid @ suf \<and> map f mid = map f k"
    by blast
next
  assume "\<exists>pre mid suf. t = pre @ mid @ suf \<and> map f mid = map f k"
  then show "sublist (map f k) (map f t)"
    by (auto simp: sublist_def) (metis map_append)
qed

lemma same_letter_iff:
  "same_letter a b \<longleftrightarrow>
     (if 65 \<le> a \<and> a \<le> 90 then a + 32 else a) = (if 65 \<le> b \<and> b \<le> 90 then b + 32 else b)"
  by (auto simp: same_letter_def)

lemma ascii_lower_eq_iff:
  "ascii_lower mid = ascii_lower k \<longleftrightarrow> list_all2 same_letter mid k"
proof -
  let ?f = "\<lambda>c::nat. if 65 \<le> c \<and> c \<le> 90 then c + 32 else c"
  have "list_all2 same_letter mid k \<longleftrightarrow> list_all2 (\<lambda>x y. ?f x = ?f y) mid k"
    by (simp add: same_letter_iff[abs_def])
  also have "\<dots> \<longleftrightarrow> list_all2 (=) (map ?f mid) (map ?f k)"
    by (simp add: list.rel_map)
  also have "\<dots> \<longleftrightarrow> map ?f mid = map ?f k"
    by (simp add: list.rel_eq)
  finally show ?thesis by (simp add: ascii_lower_def)
qed

lemma sublist_ascii_lower:
  "sublist (ascii_lower k) (ascii_lower t) \<longleftrightarrow> contains_ignoring_case t k"
  unfolding contains_ignoring_case_def ascii_lower_eq_iff[symmetric]
  by (simp add: ascii_lower_def sublist_map_iff)

lemma lower_latin_greek_ascii_aux:
  "ascii s \<Longrightarrow> lower_after preceded s = ascii_lower s"
proof (induction s arbitrary: preceded)
  case Nil
  show ?case by (simp add: ascii_lower_def)
next
  case (Cons c cs)
  then have "c < 128" and "ascii cs" by (simp_all add: ascii_def)
  with Cons.IH[of "if case_ignorable c then preceded else letter c"] show ?case
    by (simp add: ascii_lower_def small_def)
qed

lemma lowers_ascii_latin_greek: "lowers_ascii lower_latin_greek"
  by (simp add: lowers_ascii_def lower_latin_greek_def lower_latin_greek_ascii_aux)


section \<open>Properties of the conversation memory\<close>

lemma add_conversation_history:
  "conversation_history (add_conversation now u a self) =
     drop (length (conversation_history self) - 49)
       (conversation_history self @ [as_conv (now, u, a)])"
  by (simp add: add_conversation_def last50 as_conv_def)

lemma add_all_history:
  "length (conversation_history self) \<le> 50 \<Longrightarrow>
   conversation_history (add_all ops self) =
     drop (length (conversation_history self) + length ops - 50)
       (conversation_history self @ map as_conv ops)"
proof (induction ops arbitrary: self)
  case Nil
  then show ?case by simp
next
  case (Cons t ops)
  obtain now u a where t: "t = (now, u, a)" by (cases t)
  let ?h = "conversation_history self"
  let ?h1 = "conversation_history (add_conversation now u a self)"
  have h1: "?h1 = drop (length ?h - 49) (?h @ [as_conv t])"
    by (simp add: add_conversation_history t)
  have len: "length ?h1 \<le> 50" using Cons.prems by (simp add: h1)
  have "conversation_history (add_all (t # ops) self) =
          drop (length ?h1 + length ops - 50) (?h1 @ map as_conv ops)"
    using Cons.IH[OF len] by (simp add: t)
  also have "\<dots> = drop (length ?h + length (t # ops) - 50) (?h @ map as_conv (t # ops))"
  proof (cases "length ?h \<le> 49")
    case True
    then show ?thesis by (simp add: h1)
  next
    case False
    with Cons.prems have l: "length ?h = 50" by simp
    then obtain x xs where h: "?h = x # xs" by (cases ?h) auto
    from l h have "length xs = 49" by simp
    then show ?thesis by (simp add: h1 h)
  qed
  finally show ?case .
qed

lemma conv_json_inj: "conv_json c = conv_json c' \<longleftrightarrow> c = c'"
  by (cases c, cases c') (auto simp: conv_json_def)

lemma records_json_inj: "records_json cs = records_json cs' \<longleftrightarrow> cs = cs'"
proof -
  have "inj conv_json" by (simp add: inj_def conv_json_inj)
  then show ?thesis by (simp add: records_json_def inj_map_eq_map)
qed

lemma str_conversations [simp]:
  "str ''conversations'' \<noteq> str ''last_updated''"
  by (simp add: str_def)

lemma load_parsed_object:
  "load_memory (fs(memory_file self \<mapsto> Parsed (JObject ((str ''conversations'', v) # rest)))) self =
     (case py_len v of
        Inl e \<Rightarrow> Inr (self\<lparr>conversation_history := v\<rparr>, [LoadFailed e])
      | Inr n \<Rightarrow> Inr (self\<lparr>conversation_history := v\<rparr>, [Loaded n]))"
  by (auto simp: load_memory_def load_body_def py_get_def py_len_def is_Exception_def
      split: json.splits sum.splits)

lemma load_saved:
  "list_all conv_encodable (conversation_history self) \<Longrightarrow> utf8_encodable now \<Longrightarrow>
   ConversationMemory_init (memory_file self) (fst (save_memory Written now self fs)) =
     Inr (\<lparr>memory_file = memory_file self,
           conversation_history = records_json (conversation_history self)\<rparr>,
          [Loaded (length (conversation_history self))])"
  by (simp add: ConversationMemory_init_def save_memory_def saved_document_def
      load_parsed_object[where self = "\<lparr>memory_file = memory_file self, conversation_history = JArray []\<rparr>", simplified]
      py_len_def records_json_def)

lemma load_after_failed_save:
  "\<not> (list_all conv_encodable (conversation_history self) \<and> utf8_encodable now) \<or> w = WriteFails \<Longrightarrow>
   w \<noteq> OpenFails \<Longrightarrow>
   ConversationMemory_init (memory_file self) (fst (save_memory w now self fs)) =
     Inr (\<lparr>memory_file = memory_file self, conversation_history = JArray []\<rparr>,
          [LoadFailed JSONDecodeError])"
  by (cases w)
    (auto simp: ConversationMemory_init_def save_memory_def load_memory_def load_body_def
      is_Exception_def)

text \<open>
  C2, as stated, fails for \<^verbatim>\<open>load_memory\<close>: a memory file that holds 51 records
  is loaded as it is, the program prints that it loaded 51 conversations, and the
  history holds 51 records.
\<close>

theorem load_keeps_51_records:
  "ConversationMemory_init memory_path overfull_fs =
     Inr (\<lparr>memory_file = memory_path,
           conversation_history = records_json (replicate 51 sample_conv)\<rparr>,
          [Loaded 51])
   \<and> py_len (records_json (replicate 51 sample_conv)) = Inr 51
   \<and> \<not> length (replicate 51 sample_conv) \<le> 50"
  by (simp add: ConversationMemory_init_def overfull_fs_def py_len_def records_json_def
      load_parsed_object[where self = "\<lparr>memory_file = memory_path, conversation_history = JArray []\<rparr>"
        and fs = Map.empty, simplified])

text \<open>
  C2, amended: after \<^verbatim>\<open>add_conversation\<close> the store holds at most 50 records and
  after the command \<^verbatim>\<open>clear memory\<close> none; \<^verbatim>\<open>load_memory\<close> takes over the stored
  records as they are, so the count after a load is the count in the file, which is at
  most 50 for a file saved after \<^verbatim>\<open>add_conversation\<close>. Successive
  additions to an empty store leave the last 50 of them in the order of addition: after
  51 additions exactly 50 records remain, the 2nd to the 51st, the oldest dropped.
\<close>

theorem memory_cap:
  "length (conversation_history (add_conversation now u a self)) \<le> 50
   \<and> conversation_history (fst (clear_memory w now self fs)) = []
   \<and> ConversationMemory_init f
        (fs(f \<mapsto> Parsed (JObject ((str ''conversations'', records_json cs) # rest))))
       = Inr (\<lparr>memory_file = f, conversation_history = records_json cs\<rparr>, [Loaded (length cs)])
   \<and> (\<exists>cs' out.
         ConversationMemory_init (memory_file self)
           (fst (save_memory Written later (add_conversation now u a self) fs))
           = Inr (\<lparr>memory_file = memory_file self, conversation_history = records_json cs'\<rparr>, out)
         \<and> length cs' \<le> 50)
   \<and> conversation_history (add_all ops \<lparr>memory_file = f, conversation_history = []\<rparr>)
        = drop (length ops - 50) (map as_conv ops)
   \<and> (length ops = 51 \<longrightarrow>
        conversation_history (add_all ops \<lparr>memory_file = f, conversation_history = []\<rparr>)
          = map as_conv (tl ops)
        \<and> length (conversation_history
             (add_all ops \<lparr>memory_file = f, conversation_history = []\<rparr>)) = 50)"
proof -
  have a: "length (conversation_history (add_conversation now u a self)) \<le> 50"
    by (simp add: add_conversation_history)
  have b: "conversation_history (fst (clear_memory w now self fs)) = []"
    by (simp add: clear_memory_def Let_def split: prod.splits)
  have c: "ConversationMemory_init f
        (fs(f \<mapsto> Parsed (JObject ((str ''conversations'', records_json cs) # rest))))
       = Inr (\<lparr>memory_file = f, conversation_history = records_json cs\<rparr>, [Loaded (length cs)])"
    by (simp add: ConversationMemory_init_def py_len_def records_json_def
        load_parsed_object[where self = "\<lparr>memory_file = f, conversation_history = JArray []\<rparr>",
          simplified])
  have c': "\<exists>cs' out.
         ConversationMemory_init (memory_file self)
           (fst (save_memory Written later (add_conversation now u a self) fs))
           = Inr (\<lparr>memory_file = memory_file self, conversation_history = records_json cs'\<rparr>, out)
         \<and> length cs' \<le> 50"
  proof (cases "list_all conv_encodable (conversation_history (add_conversation now u a self))
                \<and> utf8_encodable later")
    case True
    then have "ConversationMemory_init (memory_file (add_conversation now u a self))
        (fst (save_memory Written later (add_conversation now u a self) fs)) =
      Inr (\<lparr>memory_file = memory_file (add_conversation now u a self),
            conversation_history = records_json (conversation_history (add_conversation now u a self))\<rparr>,
           [Loaded (length (conversation_history (add_conversation now u a self)))])"
      by (intro load_saved) simp_all
    moreover have "memory_file (add_conversation now u a self) = memory_file self"
      by (simp add: add_conversation_def)
    ultimately show ?thesis using a by auto
  next
    case False
    then have "ConversationMemory_init (memory_file (add_conversation now u a self))
        (fst (save_memory Written later (add_conversation now u a self) fs)) =
      Inr (\<lparr>memory_file = memory_file (add_conversation now u a self),
            conversation_history = JArray []\<rparr>, [LoadFailed JSONDecodeError])"
      by (intro load_after_failed_save) simp_all
    moreover have "memory_file (add_conversation now u a self) = memory_file self"
      by (simp add: add_conversation_def)
    moreover have "JArray [] = records_json []" by (simp add: records_json_def)
    ultimately show ?thesis by (metis list.size(3) zero_le)
  qed
  have d: "conversation_history (add_all ops \<lparr>memory_file = f, conversation_history = []\<rparr>)
        = drop (length ops - 50) (map as_conv ops)"
    using add_all_history[of "\<lparr>memory_file = f, conversation_history = []\<rparr>" ops] by simp
  have e: "drop (length ops - 50) (map as_conv ops) = map as_conv (tl ops)" if "length ops = 51"
    using that by (simp add: drop_Suc drop_map)
  show ?thesis
    using a b c c' d e by simp
qed

theorem memory_cap_witness:
  "length fifty_one_turns = 51
   \<and> conversation_history
        (add_all fifty_one_turns \<lparr>memory_file = memory_path, conversation_history = []\<rparr>)
        = map as_conv (tl fifty_one_turns)
   \<and> length (conversation_history
        (add_all fifty_one_turns \<lparr>memory_file = memory_path, conversation_history = []\<rparr>)) = 50"
proof -
  have len: "length fifty_one_turns = 51" by (simp add: fifty_one_turns_def)
  show ?thesis
    using len
      memory_cap[where ops = fifty_one_turns and f = memory_path,
        THEN conjunct2, THEN conjunct2, THEN conjunct2, THEN conjunct2, THEN conjunct2]
    by simp
qed

text \<open>
  C5, as stated, fails: a history whose user text is a lone surrogate cannot be written,
  the save is reported as failed and leaves a file that is not JSON, and a fresh load
  gives an empty history. The same happens when the write fails for a reason of the
  environment; when the file cannot be opened and did not exist, the fresh load finds
  none.
\<close>

theorem save_can_lose_the_records:
  "ConversationMemory_init (memory_file surrogate_memory)
       (fst (save_memory Written (str ''2024-05-01T10:00:01'') surrogate_memory no_files))
     = Inr (\<lparr>memory_file = memory_path, conversation_history = JArray []\<rparr>,
            [LoadFailed JSONDecodeError])
   \<and> records_json (conversation_history surrogate_memory) \<noteq> JArray []
   \<and> ConversationMemory_init (memory_file two_records)
       (fst (save_memory WriteFails (str ''2024-05-01T10:02:00'') two_records no_files))
     = Inr (\<lparr>memory_file = memory_path, conversation_history = JArray []\<rparr>,
            [LoadFailed JSONDecodeError])
   \<and> ConversationMemory_init (memory_file two_records)
       (fst (save_memory OpenFails (str ''2024-05-01T10:02:00'') two_records no_files))
     = Inr (\<lparr>memory_file = memory_path, conversation_history = JArray []\<rparr>, [])
   \<and> records_json (conversation_history two_records) \<noteq> JArray []"
proof -
  have a: "\<not> list_all conv_encodable (conversation_history surrogate_memory)"
    by (simp add: surrogate_memory_def conv_encodable_def utf8_encodable_def)
  have "ConversationMemory_init (memory_file surrogate_memory)
       (fst (save_memory Written (str ''2024-05-01T10:00:01'') surrogate_memory no_files))
     = Inr (\<lparr>memory_file = memory_file surrogate_memory, conversation_history = JArray []\<rparr>,
            [LoadFailed JSONDecodeError])"
    using a by (intro load_after_failed_save) simp_all
  moreover have "ConversationMemory_init (memory_file two_records)
       (fst (save_memory WriteFails (str ''2024-05-01T10:02:00'') two_records no_files))
     = Inr (\<lparr>memory_file = memory_file two_records, conversation_history = JArray []\<rparr>,
            [LoadFailed JSONDecodeError])"
    by (intro load_after_failed_save) simp_all
  moreover have "ConversationMemory_init (memory_file two_records)
       (fst (save_memory OpenFails (str ''2024-05-01T10:02:00'') two_records no_files))
     = Inr (\<lparr>memory_file = memory_path, conversation_history = JArray []\<rparr>, [])"
    by (simp add: ConversationMemory_init_def save_memory_def load_memory_def no_files_def
        two_records_def)
  ultimately show ?thesis
    by (simp add: surrogate_memory_def two_records_def records_json_def)
qed

text \<open>
  C5, amended: for every history whose texts can be encoded as UTF-8, a save whose write
  goes through, followed by a fresh load of the same file, gives back the record
  sequence of the store, the same records (time, user text, agent text) in the same
  order, whatever the time of the save; the value in the history determines the
  records.
\<close>

theorem save_load_roundtrip:
  "(list_all conv_encodable (conversation_history self) \<and> utf8_encodable now \<longrightarrow>
      ConversationMemory_init (memory_file self) (fst (save_memory Written now self fs)) =
        Inr (\<lparr>memory_file = memory_file self,
              conversation_history = records_json (conversation_history self)\<rparr>,
             [Loaded (length (conversation_history self))]))
   \<and> (records_json cs = records_json cs') = (cs = cs')"
  using load_saved records_json_inj by blast

theorem save_load_roundtrip_witness:
  "list_all conv_encodable (conversation_history two_records)
   \<and> utf8_encodable (str ''2024-05-01T10:02:00'')
   \<and> ConversationMemory_init (memory_file two_records)
        (fst (save_memory Written (str ''2024-05-01T10:02:00'') two_records no_files)) =
      Inr (\<lparr>memory_file = memory_path,
            conversation_history = records_json (conversation_history two_records)\<rparr>,
           [Loaded 2])"
proof -
  have a: "list_all conv_encodable (conversation_history two_records)"
    by (simp add: two_records_def conv_encodable_def utf8_encodable_def str_def)
  have b: "utf8_encodable (str ''2024-05-01T10:02:00'')"
    by (simp add: utf8_encodable_def str_def)
  from a b
    save_load_roundtrip[where self = two_records and now = "str ''2024-05-01T10:02:00''"
      and fs = no_files, THEN conjunct1]
  show ?thesis by (simp add: two_records_def)
qed

lemma load_memory_never_raises:
  "\<exists>self' out. load_memory fs self = Inr (self', out)"
  by (auto simp: load_memory_def load_body_def py_get_def py_len_def is_Exception_def
      split: option.splits file_content.splits json.splits sum.splits prod.splits)

lemma load_absent:
  "ConversationMemory_init f (fs(f := None)) =
     Inr (\<lparr>memory_file = f, conversation_history = JArray []\<rparr>, [])"
  by (simp add: ConversationMemory_init_def load_memory_def)

lemma load_read_or_parse_failure:
  "ConversationMemory_init f (fs(f \<mapsto> Unreadable))
     = Inr (\<lparr>memory_file = f, conversation_history = JArray []\<rparr>, [LoadFailed OSError])"
  "ConversationMemory_init f (fs(f \<mapsto> Undecodable))
     = Inr (\<lparr>memory_file = f, conversation_history = JArray []\<rparr>, [LoadFailed UnicodeDecodeError])"
  "ConversationMemory_init f (fs(f \<mapsto> Unparsable))
     = Inr (\<lparr>memory_file = f, conversation_history = JArray []\<rparr>, [LoadFailed JSONDecodeError])"
  by (simp_all add: ConversationMemory_init_def load_memory_def load_body_def is_Exception_def)

lemma load_not_an_object:
  "py_get data (str ''conversations'') (JArray []) = Inl e \<Longrightarrow>
   ConversationMemory_init f (fs(f \<mapsto> Parsed data))
     = Inr (\<lparr>memory_file = f, conversation_history = JArray []\<rparr>, [LoadFailed AttributeError])"
  by (auto simp: ConversationMemory_init_def load_memory_def load_body_def is_Exception_def
      py_get_def split: json.splits)

lemma load_object_without_key:
  "map_of kvs (str ''conversations'') = None \<Longrightarrow>
   ConversationMemory_init f (fs(f \<mapsto> Parsed (JObject kvs)))
     = Inr (\<lparr>memory_file = f, conversation_history = JArray []\<rparr>, [Loaded 0])"
  by (simp add: ConversationMemory_init_def load_memory_def load_body_def py_get_def py_len_def)

lemma load_object_with_key:
  "map_of kvs (str ''conversations'') = Some v \<Longrightarrow>
   ConversationMemory_init f (fs(f \<mapsto> Parsed (JObject kvs)))
     = Inr (\<lparr>memory_file = f, conversation_history = v\<rparr>,
            [case py_len v of Inl e \<Rightarrow> LoadFailed e | Inr n \<Rightarrow> Loaded n])"
  by (auto simp: ConversationMemory_init_def load_memory_def load_body_def py_get_def py_len_def
      is_Exception_def split: json.splits)

text \<open>
  C9 on a file that holds \<^verbatim>\<open>{"conversations": null}\<close>: the value is assigned to the
  history before \<^verbatim>\<open>len\<close> raises, so the load is reported as failed and the history is
  \<^verbatim>\<open>None\<close>, not the empty list. The failures of \<^verbatim>\<open>open\<close>, of \<^verbatim>\<open>json.load\<close> and
  of \<^verbatim>\<open>data.get\<close> leave the empty history, as the lemmas before show.
\<close>

theorem load_failure_keeps_null:
  "ConversationMemory_init memory_path null_fs =
     Inr (\<lparr>memory_file = memory_path, conversation_history = JNull\<rparr>, [LoadFailed TypeError])
   \<and> JNull \<noteq> JArray []"
  by (simp add: null_fs_def py_len_def
      load_object_with_key[where fs = Map.empty and kvs = "[(str ''conversations'', JNull)]",
        simplified])

lemma search_hit_sublist:
  "search_hit lower keyword c \<longleftrightarrow>
     sublist (lower keyword) (lower (user c)) \<or> sublist (lower keyword) (lower (agent c))"
  by (simp add: search_hit_def str_in_sublist)

lemma search_memory_subseq:
  "subseq (search_memory lower keyword self) (conversation_history self)"
  by (simp add: search_memory_def)

lemma search_memory_ascii:
  assumes "lowers_ascii lower" and "ascii keyword"
    and "list_all (\<lambda>c. ascii (user c) \<and> ascii (agent c)) (conversation_history self)"
  shows "search_memory lower keyword self =
     filter (\<lambda>c. contains_ignoring_case (user c) keyword
                \<or> contains_ignoring_case (agent c) keyword)
       (conversation_history self)"
proof -
  have "search_hit lower keyword c \<longleftrightarrow>
          contains_ignoring_case (user c) keyword \<or> contains_ignoring_case (agent c) keyword"
    if "c \<in> set (conversation_history self)" for c
  proof -
    from that assms(3) have "ascii (user c)" and "ascii (agent c)"
      by (auto simp: list_all_iff)
    with assms(1,2) have "lower keyword = ascii_lower keyword"
      and "lower (user c) = ascii_lower (user c)" and "lower (agent c) = ascii_lower (agent c)"
      by (simp_all add: lowers_ascii_def)
    then show ?thesis by (simp add: search_hit_sublist sublist_ascii_lower)
  qed
  then show ?thesis
    unfolding search_memory_def by (intro filter_cong) simp_all
qed

lemma search_memory_example:
  "search_memory lower_latin_greek (str ''THANK'') two_records =
     [\<lparr>timestamp = str ''2024-05-01T10:01:00'', user = str ''Thanks'',
       agent = str ''Welcome''\<rparr>]"
  by code_simp

text \<open>
  C6 on the keyword \<open>ODOS\<close> and a record whose user text is \<open>ODOSA\<close>, in Greek
  capitals: \<^verbatim>\<open>str.lower\<close> gives the keyword a final sigma and the text an inner sigma,
  so \<^verbatim>\<open>search_memory\<close> returns nothing, although the text contains the keyword as it
  is written. The hypotheses are the values of \<^verbatim>\<open>str.lower\<close> on the three texts.
\<close>

theorem search_misses_final_sigma:
  assumes "lower ODOS = odos_final" and "lower ODOSA = odosa" and "lower (str ''ok'') = str ''ok''"
  shows "search_memory lower ODOS greek_memory = []
     \<and> conversation_history greek_memory
         = [\<lparr>timestamp = str ''2024-05-01T10:00:00'', user = ODOSA, agent = str ''ok''\<rparr>]
     \<and> sublist ODOS ODOSA
     \<and> contains_ignoring_case ODOSA ODOS"
proof -
  have a: "\<not> str_in odos_final odosa"
    by (simp add: odos_final_def odosa_def)
  have b: "\<not> str_in odos_final (str ''ok'')"
    by (simp add: odos_final_def str_def)
  have c: "ODOSA = [] @ ODOS @ [913]"
    by (simp add: ODOS_def ODOSA_def)
  then have d: "sublist ODOS ODOSA"
    unfolding sublist_def by blast
  have "list_all2 same_letter ODOS ODOS"
    by (simp add: list_all2_same same_letter_def)
  with c have e: "contains_ignoring_case ODOSA ODOS"
    unfolding contains_ignoring_case_def by blast
  from a b d e assms show ?thesis
    by (simp add: search_memory_def search_hit_def greek_memory_def)
qed

theorem search_misses_final_sigma_witness:
  "lower_latin_greek ODOS = odos_final
   \<and> lower_latin_greek ODOSA = odosa
   \<and> lower_latin_greek (str ''ok'') = str ''ok''
   \<and> search_memory lower_latin_greek ODOS greek_memory = []
   \<and> sublist ODOS ODOSA"
proof -
  have a: "lower_latin_greek ODOS = odos_final" by code_simp
  have b: "lower_latin_greek ODOSA = odosa" by code_simp
  have c: "lower_latin_greek (str ''ok'') = str ''ok''" by code_simp
  from a b c search_misses_final_sigma[OF a b c] show ?thesis by simp
qed

lemma get_context_messages_positive:
  "0 < limit \<Longrightarrow>
   get_context_messages limit self =
     concat (map context_pair
       (drop (length (conversation_history self) - nat limit) (conversation_history self)))"
  by (simp add: get_context_messages_def py_slice_from_neg)

text \<open>
  C7 at the limit 0: the slice \<^verbatim>\<open>[-0:]\<close> is the whole history, so
  \<^verbatim>\<open>get_context_messages(0)\<close> returns the messages of every record, where the last
  0 records are no record at all.
\<close>

theorem context_limit_zero_returns_all:
  "get_context_messages 0 two_records =
     [HumanMessage (str ''What is 3 times 4?'') None,
      SystemMessage (str ''Previous response: 12'') None,
      HumanMessage (str ''Thanks'') None,
      SystemMessage (str ''Previous response: Welcome'') None]"
  by (simp add: get_context_messages_def two_records_def py_slice_from_def context_pair_def
      str_def)


section \<open>Properties of the reducer\<close>

lemma msg_id_with_id [simp]: "msg_id (with_id j m) = j"
  by (cases m) simp_all

lemma content_with_id [simp]: "content (with_id j m) = content m"
  by (cases m) simp_all

lemma tool_calls_with_id [simp]: "tool_calls (with_id j m) = tool_calls m"
  by (cases m) simp_all

lemma with_id_with_id [simp]: "with_id j (with_id i m) = with_id j m"
  by (cases m) simp_all


lemma assign_ids_length [simp]: "length (fst (assign_ids uuid4 k ms)) = length ms"
  by (induction ms arbitrary: k) (auto simp: case_prod_beta split: option.splits)

lemma assign_ids_identified: "identified (fst (assign_ids uuid4 k ms))"
  by (induction ms arbitrary: k)
    (auto simp: identified_def case_prod_beta split: option.splits)

lemma assign_ids_of_identified: "identified ms \<Longrightarrow> assign_ids uuid4 k ms = (ms, k)"
  by (induction ms arbitrary: k) (auto simp: identified_def)


lemma assign_ids_Nil_iff [simp]: "fst (assign_ids uuid4 k ms) = [] \<longleftrightarrow> ms = []"
  by (cases ms) (auto simp: case_prod_beta split: option.splits)

lemma replace_last_Some:
  "replace_last m xs = Some ys \<Longrightarrow>
     map msg_id ys = map msg_id xs
     \<and> list_all2 (\<lambda>old new. new = old \<or> (new = m \<and> msg_id new = msg_id old)) xs ys"
proof (induction xs arbitrary: ys)
  case Nil
  then show ?case by simp
next
  case (Cons x xs)
  show ?case
  proof (cases "replace_last m xs")
    case None
    with Cons.prems have "msg_id x = msg_id m" and "ys = m # xs"
      by (auto split: if_splits)
    then show ?thesis by (simp add: list_all2_same)
  next
    case (Some xs')
    with Cons.prems have "ys = x # xs'" by simp
    with Cons.IH[OF Some] show ?thesis by simp
  qed
qed

lemma replace_last_None: "replace_last m xs = None \<longleftrightarrow> msg_id m \<notin> msg_id ` set xs"
  by (induction xs) (auto split: option.splits)

lemma merge_message_ids:
  "map msg_id (merge_message xs m) =
     map msg_id xs @ (if msg_id m \<in> msg_id ` set xs then [] else [msg_id m])"
proof (cases "replace_last m xs")
  case None
  then show ?thesis by (simp add: merge_message_def replace_last_None[symmetric])
next
  case (Some ys)
  moreover from Some have "msg_id m \<in> msg_id ` set xs"
    using replace_last_None[of m xs] by auto
  ultimately show ?thesis
    using replace_last_Some[OF Some] by (simp add: merge_message_def)
qed



lemma merge_message_new:
  "msg_id m \<notin> msg_id ` set xs \<Longrightarrow> merge_message xs m = xs @ [m]"
  by (simp add: merge_message_def replace_last_None[symmetric])

lemma merge_messages_ids_prefix:
  "prefix (map msg_id xs) (map msg_id (foldl merge_message xs right))"
proof (induction right arbitrary: xs)
  case Nil
  show ?case by simp
next
  case (Cons m right)
  have "prefix (map msg_id xs) (map msg_id (merge_message xs m))"
    by (simp add: merge_message_ids)
  also have "prefix \<dots> (map msg_id (foldl merge_message (merge_message xs m) right))"
    by (rule Cons.IH)
  finally show ?case by simp
qed

lemma merge_messages_new:
  "distinct (map msg_id right) \<Longrightarrow> msg_id ` set right \<inter> msg_id ` set xs = {} \<Longrightarrow>
   foldl merge_message xs right = xs @ right"
proof (induction right arbitrary: xs)
  case Nil
  show ?case by simp
next
  case (Cons m right)
  from Cons.prems have new: "msg_id m \<notin> msg_id ` set xs" by auto
  from Cons.prems have "distinct (map msg_id right)"
    and "msg_id ` set right \<inter> msg_id ` set (xs @ [m]) = {}"
    by auto
  from Cons.IH[OF this] new show ?case by (simp add: merge_message_new)
qed

lemma merge_messages_not_Nil:
  "xs \<noteq> [] \<or> right \<noteq> [] \<Longrightarrow> foldl merge_message xs right \<noteq> []"
proof (cases right)
  case Nil
  then show "xs \<noteq> [] \<or> right \<noteq> [] \<Longrightarrow> ?thesis" by simp
next
  case (Cons m ms)
  have "map msg_id (merge_message xs m) \<noteq> []"
    by (simp add: merge_message_ids)
  then have "merge_message xs m \<noteq> []" by auto
  moreover have "prefix (map msg_id (merge_message xs m))
      (map msg_id (foldl merge_message (merge_message xs m) ms))"
    by (rule merge_messages_ids_prefix)
  ultimately have "map msg_id (foldl merge_message (merge_message xs m) ms) \<noteq> []"
    by (metis map_is_Nil_conv prefix_bot.extremum_uniqueI)
  then show ?thesis using Cons by auto
qed

lemma merge_messages_identified:
  "identified xs \<Longrightarrow> identified right \<Longrightarrow> identified (foldl merge_message xs right)"
proof (induction right arbitrary: xs)
  case Nil
  then show ?case by simp
next
  case (Cons m right)
  have "set (map msg_id (merge_message xs m)) \<subseteq> set (map msg_id xs) \<union> {msg_id m}"
    by (auto simp: merge_message_ids split: if_splits)
  with Cons.prems have "identified (merge_message xs m)"
    by (auto simp: identified_def list_all_iff)
  moreover from Cons.prems have "identified right" by (simp add: identified_def)
  ultimately show ?case using Cons.IH by simp
qed

lemma merge_messages_last:
  "foldl merge_message xs (right @ [m]) = merge_message (foldl merge_message xs right) m"
  by simp

text \<open>What one step does to the messages of a state.\<close>

lemma messages_apply_update:
  "messages (fst (apply_update uuid4 k state update)) =
     foldl merge_message (fst (assign_ids uuid4 k (messages state)))
       (fst (assign_ids uuid4 (snd (assign_ids uuid4 k (messages state))) update))"
  by (simp add: apply_update_def add_messages_def Let_def split: prod.splits)

lemma apply_update_identified:
  "identified (messages (fst (apply_update uuid4 k state update)))"
  by (simp add: messages_apply_update merge_messages_identified assign_ids_identified)

lemma apply_update_keeps:
  "identified (messages state) \<Longrightarrow> keeps state (fst (apply_update uuid4 k state update))"
  by (simp add: keeps_def messages_apply_update assign_ids_of_identified
      merge_messages_ids_prefix)

lemma apply_update_not_Nil:
  "messages state \<noteq> [] \<or> update \<noteq> [] \<Longrightarrow>
   messages (fst (apply_update uuid4 k state update)) \<noteq> []"
  by (simp add: messages_apply_update merge_messages_not_Nil)

lemma apply_update_appends:
  assumes "identified (messages state)"
    and "distinct (map msg_id (fst (assign_ids uuid4 k update)))"
    and "msg_id ` set (fst (assign_ids uuid4 k update)) \<inter> msg_id ` set (messages state) = {}"
  shows "messages (fst (apply_update uuid4 k state update)) =
           messages state @ fst (assign_ids uuid4 k update)"
  using assms
  by (simp add: messages_apply_update assign_ids_of_identified merge_messages_new)

section \<open>Properties of the agent graph\<close>

lemma tool_calls_guard: "(has_tool_calls m \<and> tool_calls m \<noteq> []) = (tool_calls m \<noteq> [])"
  by (cases m) simp_all

lemma should_continue_eq:
  "should_continue state =
     (if messages state = [] then Inl IndexError
      else if tool_calls (last (messages state)) \<noteq> [] then Inr ''continue'' else Inr ''end'')"
  by (simp add: should_continue_def Let_def tool_calls_guard split: list.splits)

lemma after_agent_calling_eq:
  "after_agent_calling state =
     (if messages state = [] then Inl IndexError
      else if tool_calls (last (messages state)) \<noteq> [] then Inr tools else Inr END)"
  by (simp add: after_agent_calling_def should_continue_eq conditional_edges_def)

lemma emit_Some:
  "emit s r = Some (states, ending) \<longleftrightarrow> (\<exists>rest. r = Some (rest, ending) \<and> states = s # rest)"
  by (auto simp: emit_def split: option.splits)

text \<open>The two steps of the graph, as they appear in a run that returns.\<close>

lemma agent_step_cases:
  assumes "run_graph (Suc fuel) uuid4 k m t agent_calling state = Some (states, ending)"
  shows "states = [] \<and> (\<exists>e. ending = Raises e)
     \<or> (\<exists>update n rest.
          model_call m state = Inr update
          \<and> after_agent_calling (fst (apply_update uuid4 k state update)) = Inr n
          \<and> run_graph fuel uuid4 (snd (apply_update uuid4 k state update)) m t n
               (fst (apply_update uuid4 k state update)) = Some (rest, ending)
          \<and> states = fst (apply_update uuid4 k state update) # rest)"
  using assms by (auto simp: Let_def case_prod_beta emit_Some split: sum.splits)

lemma tools_step_cases:
  assumes "run_graph (Suc fuel) uuid4 k m t tools state = Some (states, ending)"
  shows "states = [] \<and> (\<exists>e. ending = Raises e)
     \<or> (\<exists>update rest.
          t state = Inr update
          \<and> run_graph fuel uuid4 (snd (apply_update uuid4 k state update)) m t agent_calling
               (fst (apply_update uuid4 k state update)) = Some (rest, ending)
          \<and> states = fst (apply_update uuid4 k state update) # rest)"
  using assms by (auto simp: Let_def case_prod_beta emit_Some split: sum.splits)


lemma run_graph_answers:
  assumes "m (model_input state) = Inr r" and "identified (messages state)"
    and "msg_id r \<noteq> None" and "msg_id r \<notin> msg_id ` set (messages state)"
    and "tool_calls r = []"
  shows "run_graph (Suc fuel) uuid4 k m t agent_calling state =
           Some ([state\<lparr>messages := messages state @ [r]\<rparr>], StopIteration)"
proof -
  have ids: "assign_ids uuid4 k [r] = ([r], k)"
    using assms(3) by (intro assign_ids_of_identified) (simp add: identified_def)
  have upd: "apply_update uuid4 k state [r] = (state\<lparr>messages := messages state @ [r]\<rparr>, k)"
    using assms(2,4)
    by (simp add: apply_update_def add_messages_def assign_ids_of_identified ids
        merge_message_new del: assign_ids.simps)
  show ?thesis
    using assms(1,5) by (simp add: model_call_def upd after_agent_calling_eq emit_def)
qed

lemma run_graph_more_fuel:
  "run_graph fuel uuid4 k m t n state = Some result \<Longrightarrow>
   run_graph (fuel + extra) uuid4 k m t n state = Some result"
proof (induction fuel arbitrary: k n state result)
  case 0
  then show ?case by (cases n) simp_all
next
  case (Suc fuel)
  show ?case
  proof (cases n)
    case END
    with Suc.prems show ?thesis by simp
  next
    case agent_calling
    with Suc.prems Suc.IH show ?thesis
      by (auto simp: Let_def case_prod_beta emit_def split: sum.splits option.splits)
  next
    case tools
    with Suc.prems Suc.IH show ?thesis
      by (auto simp: Let_def case_prod_beta emit_def split: sum.splits option.splits)
  qed
qed

lemma transp_keeps: "transp keeps"
  by (auto simp: transp_def keeps_def)

lemma keeps_identified: "keeps a b \<Longrightarrow> messages a \<noteq> [] \<Longrightarrow> messages b \<noteq> []"
  by (auto simp: keeps_def)

lemma run_graph_keeps:
  "run_graph fuel uuid4 k m t n state = Some (states, ending) \<Longrightarrow> identified (messages state) \<Longrightarrow>
   sorted_wrt keeps (state # states) \<and> list_all (\<lambda>s. identified (messages s)) states"
proof (induction fuel arbitrary: k n state states)
  case 0
  then show ?case by (cases n) simp_all
next
  case (Suc fuel)
  have step: "sorted_wrt keeps (state # states) \<and> list_all (\<lambda>s. identified (messages s)) states"
    if rest: "run_graph fuel uuid4 k' m t n' (fst (apply_update uuid4 k state update)) = Some (rest, ending)"
      and states: "states = fst (apply_update uuid4 k state update) # rest" for k' n' update rest
  proof -
    let ?s = "fst (apply_update uuid4 k state update)"
    have id: "identified (messages ?s)" by (rule apply_update_identified)
    have "keeps state ?s" using Suc.prems(2) by (rule apply_update_keeps)
    moreover from Suc.IH[OF rest id]
    have "sorted_wrt keeps (?s # rest)" and "list_all (\<lambda>s. identified (messages s)) rest"
      by simp_all
    ultimately have "sorted_wrt keeps (state # ?s # rest)"
      by (simp only: sorted_wrt2[OF transp_keeps] simp_thms)
    moreover have "list_all (\<lambda>s. identified (messages s)) (?s # rest)"
      using id \<open>list_all (\<lambda>s. identified (messages s)) rest\<close> by simp
    ultimately show ?thesis unfolding states by (rule conjI)
  qed
  show ?case
  proof (cases n)
    case END
    with Suc.prems show ?thesis by simp
  next
    case agent_calling
    with Suc.prems(1) have
      "run_graph (Suc fuel) uuid4 k m t agent_calling state = Some (states, ending)"
      by simp
    from agent_step_cases[OF this] show ?thesis
    proof (elim disjE exE conjE)
      assume "states = []"
      then show ?thesis by simp
    next
      fix update n' rest
      assume "run_graph fuel uuid4 (snd (apply_update uuid4 k state update)) m t n'
                (fst (apply_update uuid4 k state update)) = Some (rest, ending)"
        and "states = fst (apply_update uuid4 k state update) # rest"
      then show ?thesis by (rule step)
    qed
  next
    case tools
    with Suc.prems(1) have
      "run_graph (Suc fuel) uuid4 k m t tools state = Some (states, ending)"
      by simp
    from tools_step_cases[OF this] show ?thesis
    proof (elim disjE exE conjE)
      assume "states = []"
      then show ?thesis by simp
    next
      fix update rest
      assume "run_graph fuel uuid4 (snd (apply_update uuid4 k state update)) m t agent_calling
                (fst (apply_update uuid4 k state update)) = Some (rest, ending)"
        and "states = fst (apply_update uuid4 k state update) # rest"
      then show ?thesis by (rule step)
    qed
  qed
qed

lemma app_stream_cases:
  assumes "app_stream fuel uuid4 m t inputs = Some (states, ending)"
  shows "\<exists>rest. run_graph fuel uuid4 (snd (apply_update uuid4 0 \<lparr>messages = []\<rparr> (messages inputs)))
             m t agent_calling (fst (apply_update uuid4 0 \<lparr>messages = []\<rparr> (messages inputs)))
             = Some (rest, ending)
           \<and> states = fst (apply_update uuid4 0 \<lparr>messages = []\<rparr> (messages inputs)) # rest"
  using assms by (auto simp: app_stream_def entry_point_def emit_Some case_prod_beta Let_def)

lemma app_stream_keeps:
  assumes "app_stream fuel uuid4 m t inputs = Some (states, ending)"
  shows "states \<noteq> [] \<and> sorted_wrt keeps states \<and> list_all (\<lambda>s. identified (messages s)) states"
proof -
  let ?s = "fst (apply_update uuid4 0 \<lparr>messages = []\<rparr> (messages inputs))"
  from app_stream_cases[OF assms] obtain rest where
    rest: "run_graph fuel uuid4 (snd (apply_update uuid4 0 \<lparr>messages = []\<rparr> (messages inputs)))
             m t agent_calling ?s = Some (rest, ending)"
    and states: "states = ?s # rest"
    by blast
  have id: "identified (messages ?s)" by (rule apply_update_identified)
  from run_graph_keeps[OF rest id] id states show ?thesis by simp
qed

lemma sorted_wrt_keeps_not_Nil:
  "sorted_wrt keeps (s # states) \<Longrightarrow> messages s \<noteq> [] \<Longrightarrow> list_all (\<lambda>x. messages x \<noteq> []) states"
  by (auto simp: list_all_iff dest: keeps_identified)











lemma turn_inputs_question:
  "turn_inputs fresh_memory (str ''What is 3 times 4?'') = question"
  by (simp add: turn_inputs_def fresh_memory_def get_context_messages_def question_def
      py_slice_from_def)

lemma calculator_stream:
  "app_stream 3 numbered_uuid calculator_model calculator_tools question
     = Some (calculator_run, StopIteration)"
  by code_simp

lemma silent_stream:
  "app_stream 1 numbered_uuid silent_model calculator_tools question
     = Some (silent_run, StopIteration)"
  by code_simp




text \<open>
  The state after the model step ends with the response when the id of the response is
  not yet in the state.
\<close>

lemma agent_step_appends:
  assumes "identified (messages state)"
    and "msg_id response \<noteq> None" and "msg_id response \<notin> msg_id ` set (messages state)"
  shows "messages (fst (apply_update uuid4 k state [response])) = messages state @ [response]"
proof -
  have "assign_ids uuid4 k [response] = ([response], k)"
    using assms(2) by (intro assign_ids_of_identified) (simp add: identified_def)
  with apply_update_appends[OF assms(1), of uuid4 k "[response]"] assms(3)
  show ?thesis by (simp del: assign_ids.simps)
qed




section \<open>Properties of the memory capture\<close>

lemma consume_result:
  "list_all (\<lambda>s. messages s \<noteq> []) states \<Longrightarrow>
   consume states a =
     (map (\<lambda>s. Printed (last (messages s))) states,
      Inr (if states = [] then a else content (last (messages (last states)))))"
proof (induction states arbitrary: a)
  case Nil
  show ?case by simp
next
  case (Cons s states)
  then show ?case by (cases "messages s") (auto simp: Let_def)
qed

lemma capture_equation:
  assumes "list_all (\<lambda>s. messages s \<noteq> []) states" and "states \<noteq> []"
  shows "print_stream_with_memory (states, StopIteration) memory user_input now_add now_save w fs =
     (let final = last (messages (last states));
          out = map (\<lambda>s. Printed (last (messages s))) states;
          memory' = add_conversation now_add user_input (content final) memory
      in if content final = [] then (None, memory, fs, out)
         else (None, memory', fst (save_memory w now_save memory' fs),
               out @ snd (save_memory w now_save memory' fs)))"
  using assms
  by (simp add: print_stream_with_memory_def consume_result Let_def split: prod.splits)

text \<open>
  C10: for a stream that ends normally, the turn is recorded only if the content of the
  last message of the last state is not empty. When it is empty, the memory and the
  file system are unchanged and nothing is saved; otherwise the record is added to the
  memory and the memory is saved.
\<close>

theorem empty_response_not_recorded:
  assumes "list_all (\<lambda>s. messages s \<noteq> []) states" and "states \<noteq> []"
  shows "print_stream_with_memory (states, StopIteration) memory user_input now_add now_save w fs =
     (let final = last (messages (last states));
          out = map (\<lambda>s. Printed (last (messages s))) states;
          memory' = add_conversation now_add user_input (content final) memory
      in if content final = [] then (None, memory, fs, out)
         else (None, memory', fst (save_memory w now_save memory' fs),
               out @ snd (save_memory w now_save memory' fs)))"
  using assms by (rule capture_equation)

theorem empty_response_not_recorded_witness:
  "list_all (\<lambda>s. messages s \<noteq> []) silent_run \<and> silent_run \<noteq> []
   \<and> print_stream_with_memory (silent_run, StopIteration) two_records
        (str ''What is 3 times 4?'') (str ''2024-05-01T10:02:00'') (str ''2024-05-01T10:02:01'')
        Written overfull_fs
      = (None, two_records, overfull_fs,
         [Printed asked, Printed (AIMessage [] [] (Some (str ''run-1'')))])"
proof -
  have a: "list_all (\<lambda>s. messages s \<noteq> []) silent_run" by (simp add: silent_run_def)
  have b: "silent_run \<noteq> []" by (simp add: silent_run_def)
  have c: "last (messages (last silent_run)) = AIMessage [] [] (Some (str ''run-1''))"
    by (simp add: silent_run_def)
  have d: "map (\<lambda>s. Printed (last (messages s))) silent_run =
             [Printed asked, Printed (AIMessage [] [] (Some (str ''run-1'')))]"
    by (simp add: silent_run_def)
  show ?thesis
    using a b empty_response_not_recorded[OF a b, where memory = two_records and fs = overfull_fs]
    by (simp add: c d Let_def)
qed

lemma turn_recorded_only_with_text:
  assumes "app_stream fuel uuid4 m t (turn_inputs memory user_prompt) = Some (states, StopIteration)"
  shows "turn fuel uuid4 m t now_add now_save w user_prompt memory fs =
     Some (let final = last (messages (last states));
               out = map (\<lambda>s. Printed (last (messages s))) states;
               memory' = add_conversation now_add user_prompt (content final) memory
           in if content final = [] then (None, memory, fs, out)
              else (None, memory', fst (save_memory w now_save memory' fs),
                    out @ snd (save_memory w now_save memory' fs)))"
proof -
  let ?inputs = "turn_inputs memory user_prompt"
  let ?s = "fst (apply_update uuid4 0 \<lparr>messages = []\<rparr> (messages ?inputs))"
  from app_stream_cases[OF assms] obtain rest where states: "states = ?s # rest"
    by blast
  have "messages ?inputs \<noteq> []" by (simp add: turn_inputs_def)
  then have ne: "messages ?s \<noteq> []" by (simp add: apply_update_not_Nil)
  from app_stream_keeps[OF assms] have "sorted_wrt keeps states" by simp
  with states ne have all: "list_all (\<lambda>s. messages s \<noteq> []) states"
    using sorted_wrt_keeps_not_Nil[of ?s rest] by simp
  have "states \<noteq> []" using states by simp
  from capture_equation[OF all this] assms show ?thesis
    by (simp add: turn_def)
qed

lemma calculator_turn:
  "turn 3 numbered_uuid calculator_model calculator_tools
       (str ''2024-05-01T10:02:00'') (str ''2024-05-01T10:02:01'')
       Written (str ''What is 3 times 4?'') fresh_memory no_files
     = Some (None,
         \<lparr>memory_file = memory_path,
          conversation_history =
            [\<lparr>timestamp = str ''2024-05-01T10:02:00'', user = str ''What is 3 times 4?'',
              agent = str ''3 times 4 is 12''\<rparr>]\<rparr>,
         [memory_path \<mapsto>
            Parsed (JObject
              [(str ''conversations'',
                records_json
                  [\<lparr>timestamp = str ''2024-05-01T10:02:00'', user = str ''What is 3 times 4?'',
                    agent = str ''3 times 4 is 12''\<rparr>]),
               (str ''last_updated'', JString (str ''2024-05-01T10:02:01''))])],
         [Printed asked, Printed requested, Printed computed, Printed answered])"
proof -
  have enc: "utf8_encodable (str s)" for s
  proof -
    have "c < 55296" if "c \<in> set (str s)" for c
    proof -
      from that obtain x where c: "c = of_char x" by (auto simp: str_def)
      have "of_char x < (256::nat)" by (rule nat_of_char_less_256)
      also have "(256::nat) < 55296" by simp
      finally show ?thesis unfolding c .
    qed
    then show ?thesis by (auto simp: utf8_encodable_def list_all_iff)
  qed
  have s: "app_stream 3 numbered_uuid calculator_model calculator_tools
      (turn_inputs fresh_memory (str ''What is 3 times 4?'')) = Some (calculator_run, StopIteration)"
    by (simp only: turn_inputs_question calculator_stream)
  have l: "last (messages (last calculator_run)) = answered"
    by (simp add: calculator_run_def)
  have o: "map (\<lambda>s. Printed (last (messages s))) calculator_run =
      [Printed asked, Printed requested, Printed computed, Printed answered]"
    by (simp add: calculator_run_def)
  have c: "content answered = str ''3 times 4 is 12''" "str ''3 times 4 is 12'' \<noteq> []"
    by (simp_all add: answered_def str_def)
  show ?thesis
    unfolding turn_recorded_only_with_text[OF s] l o Let_def
    by (simp add: c add_conversation_def save_memory_def fresh_memory_def py_slice_from_def
        no_files_def saved_document_def conv_encodable_def enc)
qed

end
